theory Spec2Isabelle
  imports Complex_Main
begin

section \<open>control\_system::size::is\_size (src/ControlSystem/IsSize.hpp)\<close>

text \<open>
  The trait is a class template over types with one partial specialisation. The model
  needs a universe of C++ types to range over: the instances of
  \<open>control_system::Systems::Size<Label, DerivOrder>\<close> (\<open>Systems_Size\<close>), every class type that
  is not such an instance (\<open>Class_type\<close>, by name and template arguments), the fundamental
  types, and the types built from these by cv-qualification, references and pointers. The enumeration \<open>domain::ObjectLabel\<close> is
  declared in a header that is not part of the sources, so the type of labels is a
  parameter \<open>'label\<close>. \<open>DerivOrder\<close> is a non-type template argument of type \<open>size_t\<close>, a
  natural number.
\<close>

datatype 'label cpp_type =
    Systems_Size 'label nat
  | Class_type string "'label cpp_type list"
  | Fundamental string
  | Const_qualified "'label cpp_type"
  | Volatile_qualified "'label cpp_type"
  | Lvalue_ref "'label cpp_type"
  | Rvalue_ref "'label cpp_type"
  | Pointer_to "'label cpp_type"

text \<open>
  \<^verbatim>\<open>template <typename T> struct is_size : std::false_type {};\<close>
  \<^verbatim>\<open>template <domain::ObjectLabel Label, size_t DerivOrder>\<close>
  \<^verbatim>\<open>struct is_size<Systems::Size<Label, DerivOrder>> : std::true_type {};\<close>
  The partial specialisation is chosen exactly for the types it matches; the primary
  template serves every other type.
\<close>

fun is_size :: "'label cpp_type \<Rightarrow> bool" where
  "is_size (Systems_Size Label DerivOrder) = True"
| "is_size T = False"

text \<open>\<^verbatim>\<open>template <typename T> constexpr bool is_size_v = is_size<T>::value;\<close>\<close>

definition is_size_v :: "'label cpp_type \<Rightarrow> bool" where
  "is_size_v T = is_size T"


section \<open>Actions::UpdateU (src/Time/Actions/UpdateU.hpp)\<close>

subsection \<open>Tags\<close>

text \<open>
  Tags are types. The action names \<open>NoSuchType\<close>, \<open>Tags::TimeStep\<close>, the prefix
  \<open>Tags::dt\<close> and \<open>Tags::HistoryEvolvedVariables\<close>; every other tag (a system's variables
  tag, for example) is a named tag. Distinct constructors are distinct types.
\<close>

datatype tag =
    NoSuchType
  | TimeStep
  | Tags_dt tag
  | HistoryEvolvedVariables tag tag
  | Named_tag string

text \<open>\<^verbatim>\<open>db::add_tag_prefix<Tags::dt, variables_tag>\<close>\<close>

definition add_tag_prefix_dt :: "tag \<Rightarrow> tag" where
  "add_tag_prefix_dt t = Tags_dt t"

text \<open>\<^verbatim>\<open>typename Metavariables::system::variables_tag\<close>\<close>

record system_t =
  variables_tag :: tag

record metavariables =
  system :: system_t

subsection \<open>The DataBox\<close>

text \<open>
  A DataBox holds one item per tag of its tag list. The item types that the action meets
  are the evolved variables, their history and the time step (\<open>TimeDelta\<close>); they are
  declared in headers that are not part of the sources and stay type parameters. Any
  other item is an \<open>Other_item\<close>.
\<close>

datatype ('vars, 'hist, 'td, 'other) item =
    Vars_item 'vars
  | History_item 'hist
  | TimeDelta_item 'td
  | Other_item 'other

text \<open>
  Modelled from the spec: the DataBox (DataStructures/DataBox/DataBox.hpp) is not part of
  the sources. A tag of a box is stored or derived. A derived tag is declared with "a pure
  computation function plus its prerequisite tag list"; it carries its memoized value, and
  is dirty while it carries none. The prerequisites of a derived tag are stored tags and
  derived tags declared before it: the list of a box holds the latest declaration first,
  so each entry depends on the entries after it only.
\<close>

record ('vars, 'hist, 'td, 'other) derived_tag =
  tag_name :: tag
  argument_tags :: "tag list"
  computation :: "('vars, 'hist, 'td, 'other) item list \<Rightarrow> ('vars, 'hist, 'td, 'other) item"
  cached :: "('vars, 'hist, 'td, 'other) item option"

record ('vars, 'hist, 'td, 'other) DataBox =
  stored :: "tag \<rightharpoonup> ('vars, 'hist, 'td, 'other) item"
  derived :: "('vars, 'hist, 'td, 'other) derived_tag list"

text \<open>
  Modelled from the spec: the value that a read of a tag returns. "A read of a derived tag
  triggers its declared computation over its prerequisite tags if and only if a
  prerequisite has changed since the last computation": a memoized value is returned as it
  is, a dirty tag is computed from the values of its prerequisites.
\<close>

fun value_of :: "(tag \<rightharpoonup> ('vars, 'hist, 'td, 'other) item)
    \<Rightarrow> ('vars, 'hist, 'td, 'other) derived_tag list \<Rightarrow> tag
    \<Rightarrow> ('vars, 'hist, 'td, 'other) item option" where
  "value_of st [] t = st t"
| "value_of st (d # ds) t =
     (if t = tag_name d then
        (case cached d of
           Some v \<Rightarrow> Some v
         | None \<Rightarrow> map_option (computation d) (those (map (value_of st ds) (argument_tags d))))
      else value_of st ds t)"

definition db_value :: "('vars, 'hist, 'td, 'other) DataBox \<Rightarrow> tag
    \<Rightarrow> ('vars, 'hist, 'td, 'other) item option" where
  "db_value box t = value_of (stored box) (derived box) t"

text \<open>
  Modelled from the spec: the memoization of a read. Reading the tags \<open>ts\<close> leaves every
  dirty derived tag that was computed on the way with its value; the prerequisites of a
  tag that was not dirty are not read.
\<close>

fun refresh :: "(tag \<rightharpoonup> ('vars, 'hist, 'td, 'other) item)
    \<Rightarrow> ('vars, 'hist, 'td, 'other) derived_tag list \<Rightarrow> tag list
    \<Rightarrow> ('vars, 'hist, 'td, 'other) derived_tag list" where
  "refresh st [] ts = []"
| "refresh st (d # ds) ts =
     (if tag_name d \<in> set ts then
        (case cached d of
           Some v \<Rightarrow> d # refresh st ds (removeAll (tag_name d) ts)
         | None \<Rightarrow>
             d\<lparr>cached := map_option (computation d)
                   (those (map (value_of st ds) (argument_tags d)))\<rparr>
               # refresh st ds (removeAll (tag_name d) ts @ argument_tags d))
      else d # refresh st ds ts)"

text \<open>
  Modelled from the spec: a tag "depending (transitively) on a written tag". A stored tag
  is affected by the written tags \<open>ws\<close> when it is one of them, a derived tag when one of
  its prerequisites is affected.
\<close>

fun affected :: "('vars, 'hist, 'td, 'other) derived_tag list \<Rightarrow> tag list \<Rightarrow> tag \<Rightarrow> bool" where
  "affected [] ws t = (t \<in> set ws)"
| "affected (d # ds) ws t =
     (if t = tag_name d then (\<exists>p\<in>set (argument_tags d). affected ds ws p)
      else affected ds ws t)"

text \<open>
  Modelled from the spec: "mutation invalidates the dirty flag of every derived tag
  depending (transitively) on a written tag": such a tag loses its memoized value.
\<close>

fun invalidate :: "('vars, 'hist, 'td, 'other) derived_tag list \<Rightarrow> tag list
    \<Rightarrow> ('vars, 'hist, 'td, 'other) derived_tag list" where
  "invalidate [] ws = []"
| "invalidate (d # ds) ws =
     (if \<exists>p\<in>set (argument_tags d). affected ds ws p then d\<lparr>cached := None\<rparr> else d)
       # invalidate ds ws"

text \<open>
  What can go wrong. A tag that is not in the box, or whose item has another type than
  the one the lambda takes, or a derived tag among the tags to mutate, is rejected when
  the action is instantiated; the model returns \<open>Ill_formed\<close>. The call of \<open>update_u\<close>
  returns nothing and stands in \<open>noexcept\<close> code: if the stepper reports an error the run
  ends there, which the model returns as \<open>Aborted\<close>.
\<close>

datatype 'err failure = Ill_formed tag | Aborted 'err

text \<open>
  Modelled from the spec: \<open>db::get<Tag>(box)\<close>, "\<open>get(tag)\<close> returns a read-only reference
  to the tag's current value; fails if the tag is not present". The box comes back with
  what the read memoized.
\<close>

definition db_get :: "tag \<Rightarrow> ('vars, 'hist, 'td, 'other) DataBox
    \<Rightarrow> 'err failure + (('vars, 'hist, 'td, 'other) item \<times> ('vars, 'hist, 'td, 'other) DataBox)" where
  "db_get t box =
     (case db_value box t of
        None \<Rightarrow> Inl (Ill_formed t)
      | Some i \<Rightarrow> Inr (i, box\<lparr>derived := refresh (stored box) (derived box) [t]\<rparr>))"

text \<open>
  Modelled from the spec: \<open>db::mutate<W1, W2>(box, fn, args...)\<close>, "\<open>mutate(write_tags,
  read_tags, fn)\<close> invokes \<open>fn\<close> with mutable references to \<open>write_tags\<close>' current values and
  read-only references to \<open>read_tags\<close>' current values, then commits", with the "side
  effect: mutation invalidates the dirty flag of every derived tag depending
  (transitively) on a written tag". Here with the two write tags of the action, which
  must be stored tags; the read-only argument is bound in \<open>fn\<close>. When \<open>fn\<close> does not
  return, nothing is committed and the failure is passed on.
\<close>

definition db_mutate ::
  "tag \<Rightarrow> tag \<Rightarrow> ('vars, 'hist, 'td, 'other) DataBox
    \<Rightarrow> (('vars, 'hist, 'td, 'other) item \<Rightarrow> ('vars, 'hist, 'td, 'other) item
        \<Rightarrow> 'err failure + (('vars, 'hist, 'td, 'other) item \<times> ('vars, 'hist, 'td, 'other) item))
    \<Rightarrow> 'err failure + ('vars, 'hist, 'td, 'other) DataBox" where
  "db_mutate w1 w2 box fn =
     (if w1 \<in> set (map tag_name (derived box)) then Inl (Ill_formed w1)
      else if w2 \<in> set (map tag_name (derived box)) then Inl (Ill_formed w2)
      else
        (case stored box w1 of
           None \<Rightarrow> Inl (Ill_formed w1)
         | Some x1 \<Rightarrow>
             (case stored box w2 of
                None \<Rightarrow> Inl (Ill_formed w2)
              | Some x2 \<Rightarrow>
                  (case fn x1 x2 of
                     Inl e \<Rightarrow> Inl e
                   | Inr (y1, y2) \<Rightarrow>
                       Inr (box\<lparr>stored := (stored box)(w1 \<mapsto> y1, w2 \<mapsto> y2),
                                derived := invalidate (derived box) [w1, w2]\<rparr>)))))"

subsection \<open>The cache and the time stepper\<close>

text \<open>
  \<open>Parallel::get<Tags::TimeStepperBase>(cache)\<close> yields the time stepper, an object with a
  virtual member \<open>update_u(vars, history, time_step)\<close> that works on \<open>vars\<close> and \<open>history\<close> in
  place. Its classes are not part of the sources: the stepper is a value carrying that
  member as a function from the old pair to the new pair, or to the error it reports.
\<close>

record ('vars, 'hist, 'td, 'err) TimeStepper =
  update_u :: "'vars \<Rightarrow> 'hist \<Rightarrow> 'td \<Rightarrow> 'err + ('vars \<times> 'hist)"

record ('vars, 'hist, 'td, 'err) ConstGlobalCache =
  TimeStepperBase :: "('vars, 'hist, 'td, 'err) TimeStepper"

subsection \<open>The action\<close>

text \<open>
  What an action hands back to the scheduler. \<open>UpdateU::apply\<close> returns the one-element
  tuple \<open>std::forward_as_tuple(std::move(box))\<close>: the box alone, with no termination flag
  and no index of a next action, which is the directive to continue with the next action
  of the list.
\<close>

datatype 'phase directive = Continue | SuspendOnPhase 'phase | Halt | Goto nat

record ('box, 'inbox, 'phase) action_result =
  result_box :: 'box
  result_inboxes :: 'inbox
  result_directive :: "'phase directive"

text \<open>
  \<^verbatim>\<open>using variables_tag = tmpl::conditional_t<cpp17::is_same_v<VariablesTag, NoSuchType>,\<close>
  \<^verbatim>\<open>    typename Metavariables::system::variables_tag, VariablesTag>;\<close>
\<close>

definition UpdateU_variables_tag :: "tag \<Rightarrow> metavariables \<Rightarrow> tag" where
  "UpdateU_variables_tag VariablesTag mv =
     (if VariablesTag = NoSuchType then variables_tag (system mv) else VariablesTag)"

text \<open>
  \<^verbatim>\<open>using history_tag = Tags::HistoryEvolvedVariables<variables_tag, dt_variables_tag>;\<close>
\<close>

definition UpdateU_history_tag :: "tag \<Rightarrow> metavariables \<Rightarrow> tag" where
  "UpdateU_history_tag VariablesTag mv =
     (let variables_tag = UpdateU_variables_tag VariablesTag mv;
          dt_variables_tag = add_tag_prefix_dt variables_tag
      in HistoryEvolvedVariables variables_tag dt_variables_tag)"

text \<open>
  The lambda handed to \<open>db::mutate\<close>: it takes the items of the two write tags as the
  variables and the history, and calls the stepper of the cache. (\<open>vtag\<close> and \<open>htag\<close> only
  name the tag in the failure of an item of another type.)
\<close>

definition UpdateU_lambda ::
  "('vars, 'hist, 'td, 'err) ConstGlobalCache \<Rightarrow> tag \<Rightarrow> tag \<Rightarrow> 'td
    \<Rightarrow> ('vars, 'hist, 'td, 'other) item \<Rightarrow> ('vars, 'hist, 'td, 'other) item
    \<Rightarrow> 'err failure + (('vars, 'hist, 'td, 'other) item \<times> ('vars, 'hist, 'td, 'other) item)" where
  "UpdateU_lambda cache vtag htag time_step x1 x2 =
     (case x1 of
        Vars_item vars \<Rightarrow>
          (case x2 of
             History_item history \<Rightarrow>
               (let time_stepper = TimeStepperBase cache
                in case update_u time_stepper vars history time_step of
                     Inl e \<Rightarrow> Inl (Aborted e)
                   | Inr (vars', history') \<Rightarrow> Inr (Vars_item vars', History_item history'))
           | _ \<Rightarrow> Inl (Ill_formed htag))
      | _ \<Rightarrow> Inl (Ill_formed vtag))"

text \<open>
  \<open>UpdateU<VariablesTag>::apply(box, inboxes, cache, array_index, ActionList, ParallelComponent)\<close>.
  The template argument and the metavariables are arguments of the model; the last two
  parameters of the source carry types only. The argument \<open>db::get<Tags::TimeStep>(box)\<close>
  is read before \<open>db::mutate\<close> runs, on the box that the read leaves. The inboxes are passed
  by reference and come back as part of the result.
\<close>

definition UpdateU_apply ::
  "tag \<Rightarrow> metavariables \<Rightarrow> ('vars, 'hist, 'td, 'other) DataBox \<Rightarrow> 'inbox
    \<Rightarrow> ('vars, 'hist, 'td, 'err) ConstGlobalCache \<Rightarrow> 'index
    \<Rightarrow> 'err failure + (('vars, 'hist, 'td, 'other) DataBox, 'inbox, 'phase) action_result" where
  "UpdateU_apply VariablesTag mv box inboxes cache array_index =
     (let variables_tag = UpdateU_variables_tag VariablesTag mv;
          history_tag = UpdateU_history_tag VariablesTag mv
      in case db_get TimeStep box of
           Inl e \<Rightarrow> Inl e
         | Inr (TimeDelta_item time_step, box1) \<Rightarrow>
             (case db_mutate variables_tag history_tag box1
                     (UpdateU_lambda cache variables_tag history_tag time_step) of
                Inl e \<Rightarrow> Inl e
              | Inr box' \<Rightarrow>
                  Inr \<lparr>result_box = box', result_inboxes = inboxes,
                       result_directive = Continue\<rparr>)
         | Inr _ \<Rightarrow> Inl (Ill_formed TimeStep))"


section \<open>The history buffer and the update of the time stepper\<close>

text \<open>
  Modelled from the spec: the history class and the time steppers (Time/History.hpp,
  Time/TimeSteppers) are not part of the sources. A history buffer is "an ordered sequence
  of entries (time, value, time-derivative) for one evolved field", oldest entry first.
  Times are exact rationals.
\<close>

record 'v sample =
  sample_time :: rat
  sample_value :: 'v
  sample_deriv :: 'v

text \<open>
  Modelled from the spec: the buffer is "created empty when the field starts being
  evolved"; \<open>origin\<close> is the time at which that happens, and \<open>taken\<close> counts the "samples
  taken so far" of the postcondition of the update.
\<close>

record 'v history_buffer =
  origin :: rat
  samples :: "'v sample list"
  taken :: nat

definition empty_history :: "rat \<Rightarrow> 'v history_buffer" where
  "empty_history t0 = \<lparr>origin = t0, samples = [], taken = 0\<rparr>"

text \<open>
  Modelled from the spec: the invariant of the buffer, "entries are ordered by
  non-decreasing time".
\<close>

definition ordered_by_time :: "'v sample list \<Rightarrow> bool" where
  "ordered_by_time xs = sorted (map sample_time xs)"

text \<open>
  Modelled from the spec: the time \<open>t\<close> from which the update advances the field to
  \<open>t + dt\<close> is the time of the newest retained sample, and the origin for an empty buffer.
\<close>

definition current_time :: "'v history_buffer \<Rightarrow> rat" where
  "current_time h = (case samples h of [] \<Rightarrow> origin h | _ \<Rightarrow> sample_time (last (samples h)))"

text \<open>
  Modelled from the spec: "discards samples older than required by order \<open>k\<close>": the newest
  \<open>k\<close> entries stay.
\<close>

definition discard_old :: "nat \<Rightarrow> 'a list \<Rightarrow> 'a list" where
  "discard_old k xs = drop (length xs - k) xs"

text \<open>
  Modelled from the spec: a \<open>k\<close>-step stepper as the plug-in interface has it, "an object
  implementing the update contract for a declared order \<open>k\<close>". The spec leaves the
  coefficients and the ramp-up formula to the integrator family: \<open>combination\<close> is the
  weighted combination of the current value and the stored samples for a step \<open>dt\<close> (it
  sees how many samples are stored, so it carries the ramp-up formula too), and
  \<open>derivative\<close> is the time derivative of the field at a time and value.
\<close>

record 'v multistep =
  step_order :: nat
  combination :: "rat \<Rightarrow> 'v \<Rightarrow> 'v sample list \<Rightarrow> 'v"
  derivative :: "rat \<Rightarrow> 'v \<Rightarrow> 'v"

datatype update_error = Zero_time_step | Out_of_order | Missing_sample

text \<open>
  Modelled from the spec: \<open>update(value, history, dt)\<close>. It fails "if \<open>dt\<close> is zero, if
  \<open>history\<close> is inconsistent with the declared order contract (e.g., out-of-order
  timestamps), or if a required sample is missing outside the declared ramp-up window"
  (the ramp-up being over once \<open>k\<close> samples have been taken). Otherwise it "computes the new
  value at \<open>t + dt\<close> as a weighted combination of the current value and the stored
  derivative samples", "appends the new \<open>(t + dt, value, derivative_at_new_value)\<close> sample
  to \<open>history\<close>" and "discards samples older than required by order \<open>k\<close>". The order
  contract holds of what the update commits as of what it is given: a new sample older
  than the newest stored one is out of order, and the update fails.
\<close>

definition update :: "'v multistep \<Rightarrow> 'v \<Rightarrow> 'v history_buffer \<Rightarrow> rat
    \<Rightarrow> update_error + ('v \<times> 'v history_buffer)" where
  "update s v h dt =
     (if dt = 0 then Inl Zero_time_step
      else if \<not> ordered_by_time (samples h) then Inl Out_of_order
      else if step_order s \<le> taken h \<and> length (samples h) < step_order s
        then Inl Missing_sample
      else
        let t = current_time h;
            v' = combination s dt v (samples h);
            new = \<lparr>sample_time = t + dt, sample_value = v',
                   sample_deriv = derivative s (t + dt) v'\<rparr>
        in if \<not> ordered_by_time (samples h @ [new]) then Inl Out_of_order
           else Inr (v', h\<lparr>samples := discard_old (step_order s) (samples h @ [new]),
                          taken := Suc (taken h)\<rparr>))"

text \<open>
  Modelled from the spec: a sequence of update calls with the step sizes \<open>dts\<close>, each on
  the value and history the one before left; it is successful when every call is.
\<close>

fun updates :: "'v multistep \<Rightarrow> 'v \<Rightarrow> 'v history_buffer \<Rightarrow> rat list
    \<Rightarrow> update_error + ('v \<times> 'v history_buffer)" where
  "updates s v h [] = Inr (v, h)"
| "updates s v h (dt # dts) =
     (case update s v h dt of Inl e \<Rightarrow> Inl e | Inr (v', h') \<Rightarrow> updates s v' h' dts)"




text \<open>
  Modelled from the spec: the state in which an update can be called again and again,
  ordered entries and as many of them as the postcondition of the update says.
\<close>

definition consistent :: "'v multistep \<Rightarrow> 'v history_buffer \<Rightarrow> bool" where
  "consistent s h =
     (ordered_by_time (samples h) \<and> length (samples h) = min (step_order s) (taken h))"

text \<open>
  Modelled from the spec: the stepper "installed into Cache once at startup", as the
  object whose \<open>update_u\<close> the action calls.
\<close>

definition multistep_TimeStepper ::
  "'v multistep \<Rightarrow> ('v, 'v history_buffer, rat, update_error) TimeStepper" where
  "multistep_TimeStepper s = \<lparr>update_u = update s\<rparr>"


section \<open>Example data\<close>

text \<open>
  A two-step stepper on a rational field with \<open>du/dt = 1\<close>, which steps with the newest
  stored derivative and holds the value while no sample is stored.
\<close>

definition euler_combination :: "rat \<Rightarrow> rat \<Rightarrow> rat sample list \<Rightarrow> rat" where
  "euler_combination dt v xs = (case xs of [] \<Rightarrow> v | _ \<Rightarrow> v + dt * sample_deriv (last xs))"

definition constant_derivative :: "rat \<Rightarrow> rat \<Rightarrow> rat" where
  "constant_derivative t v = 1"

definition example_stepper :: "rat multistep" where
  "example_stepper =
     \<lparr>step_order = 2, combination = euler_combination, derivative = constant_derivative\<rparr>"

definition example_metavariables :: metavariables where
  "example_metavariables = \<lparr>system = \<lparr>variables_tag = Named_tag ''U''\<rparr>\<rparr>"

definition example_history_tag :: tag where
  "example_history_tag = HistoryEvolvedVariables (Named_tag ''U'') (Tags_dt (Named_tag ''U''))"

definition example_cache :: "(rat, rat history_buffer, rat, update_error) ConstGlobalCache" where
  "example_cache = \<lparr>TimeStepperBase = multistep_TimeStepper example_stepper\<rparr>"

definition example_history_after :: "rat history_buffer" where
  "example_history_after =
     \<lparr>origin = 0,
      samples = [\<lparr>sample_time = 1, sample_value = 0, sample_deriv = 1\<rparr>],
      taken = 1\<rparr>"

definition example_history_second :: "rat history_buffer" where
  "example_history_second =
     \<lparr>origin = 0,
      samples = [\<lparr>sample_time = 1, sample_value = 0, sample_deriv = 1\<rparr>,
                 \<lparr>sample_time = 3 / 2, sample_value = 1 / 2, sample_deriv = 1\<rparr>],
      taken = 2\<rparr>"

definition example_run_after :: "rat history_buffer" where
  "example_run_after =
     \<lparr>origin = 0,
      samples = [\<lparr>sample_time = 3 / 2, sample_value = 1 / 2, sample_deriv = 1\<rparr>,
                 \<lparr>sample_time = 7 / 2, sample_value = 5 / 2, sample_deriv = 1\<rparr>],
      taken = 3\<rparr>"

definition backward_first :: "rat history_buffer" where
  "backward_first =
     \<lparr>origin = 0,
      samples = [\<lparr>sample_time = - 1, sample_value = 0, sample_deriv = 1\<rparr>],
      taken = 1\<rparr>"

text \<open>
  A box after one step of the example stepper: the variables \<open>U\<close> with their history, the
  time step \<open>1/2\<close>, an unrelated stored tag \<open>X\<close>, the derived tag \<open>D = 2 U + 1\<close> with its
  memoized value, and the derived tag \<open>E = not X\<close>, not yet computed.
\<close>

definition twice_plus_one :: "(rat, rat history_buffer, rat, bool) item list
    \<Rightarrow> (rat, rat history_buffer, rat, bool) item" where
  "twice_plus_one xs = (case xs of [Vars_item u] \<Rightarrow> Vars_item (2 * u + 1) | _ \<Rightarrow> Other_item False)"

definition negation :: "(rat, rat history_buffer, rat, bool) item list
    \<Rightarrow> (rat, rat history_buffer, rat, bool) item" where
  "negation xs = (case xs of [Other_item b] \<Rightarrow> Other_item (\<not> b) | _ \<Rightarrow> Other_item False)"

definition example_D :: "(rat, rat history_buffer, rat, bool) derived_tag" where
  "example_D = \<lparr>tag_name = Named_tag ''D'', argument_tags = [Named_tag ''U''],
     computation = twice_plus_one, cached = Some (Vars_item 1)\<rparr>"

definition example_E :: "(rat, rat history_buffer, rat, bool) derived_tag" where
  "example_E = \<lparr>tag_name = Named_tag ''E'', argument_tags = [Named_tag ''X''],
     computation = negation, cached = None\<rparr>"

definition example_box :: "(rat, rat history_buffer, rat, bool) DataBox" where
  "example_box =
     \<lparr>stored =
        [TimeStep \<mapsto> TimeDelta_item (1 / 2),
         Named_tag ''U'' \<mapsto> Vars_item 0,
         example_history_tag \<mapsto> History_item example_history_after,
         Named_tag ''X'' \<mapsto> Other_item True],
      derived = [example_D, example_E]\<rparr>"

definition example_box_after :: "(rat, rat history_buffer, rat, bool) DataBox" where
  "example_box_after =
     \<lparr>stored =
        [TimeStep \<mapsto> TimeDelta_item (1 / 2),
         Named_tag ''U'' \<mapsto> Vars_item (1 / 2),
         example_history_tag \<mapsto> History_item example_history_second,
         Named_tag ''X'' \<mapsto> Other_item True],
      derived = [example_D\<lparr>cached := None\<rparr>, example_E]\<rparr>"


section \<open>Properties of is\_size\_v\<close>

text \<open>
  Claim C10. For every type \<open>T\<close>, \<open>is_size_v<T>\<close> is true if and only if \<open>T\<close> is
  \<open>control_system::Systems::Size<Label, DerivOrder>\<close> for some object label and some natural
  number \<open>DerivOrder\<close>; for every other type it is false.
\<close>

theorem is_size_v_iff:
  "is_size_v T = (\<exists>Label DerivOrder. T = Systems_Size Label DerivOrder)"
  unfolding is_size_v_def by (cases T) simp_all

text \<open>
  The trait at a \<open>Size\<close> system, at a const-qualified one (which the specialisation does not
  match) and at another class type.
\<close>

theorem is_size_v_iff_witness:
  "is_size_v (Systems_Size ''A'' 2)
   \<and> \<not> is_size_v (Const_qualified (Systems_Size ''A'' 2))
   \<and> \<not> is_size_v (Class_type ''std::vector'' [Fundamental ''double''])"
  using is_size_v_iff [of "Systems_Size ''A'' 2"]
    is_size_v_iff [of "Const_qualified (Systems_Size ''A'' 2)"]
    is_size_v_iff [of "Class_type ''std::vector'' [Fundamental ''double'']"]
  by simp


section \<open>Properties of the DataBox\<close>

text \<open>
  A read memoizes and a mutation invalidates, and neither declares or removes a derived
  tag. A read changes no value, and a mutation changes no value of a tag that the written
  tags do not affect.
\<close>

lemma tag_name_refresh [simp]: "map tag_name (refresh st ds ts) = map tag_name ds"
  by (induction ds arbitrary: ts) (auto split: option.splits)

lemma set_tag_name_refresh [simp]: "tag_name ` set (refresh st ds ts) = tag_name ` set ds"
  by (simp only: list.set_map [symmetric] tag_name_refresh)

lemma affected_refresh [simp]: "affected (refresh st ds ts) ws t = affected ds ws t"
  by (induction ds arbitrary: ts t) (auto split: option.splits)

lemma value_of_refresh [simp]: "value_of st (refresh st ds ts) t = value_of st ds t"
proof (induction ds arbitrary: ts t)
  case Nil
  then show ?case by simp
next
  case (Cons d ds)
  have args: "\<And>ts'. map (value_of st (refresh st ds ts')) (argument_tags d)
      = map (value_of st ds) (argument_tags d)"
    using Cons.IH by simp
  show ?case
    by (simp add: Cons.IH args split: option.splits)
qed

lemma tag_name_invalidate [simp]: "map tag_name (invalidate ds ws) = map tag_name ds"
  by (induction ds) auto

lemma value_of_invalidate:
  assumes "\<not> affected ds ws t" and "\<And>x. x \<notin> set ws \<Longrightarrow> st' x = st x"
  shows "value_of st' (invalidate ds ws) t = value_of st ds t"
  using assms(1)
proof (induction ds arbitrary: t)
  case Nil
  then show ?case using assms(2) by simp
next
  case (Cons d ds)
  show ?case
  proof (cases "t = tag_name d")
    case True
    with Cons.prems have un: "\<forall>p\<in>set (argument_tags d). \<not> affected ds ws p"
      by simp
    then have args: "map (value_of st' (invalidate ds ws)) (argument_tags d)
        = map (value_of st ds) (argument_tags d)"
      using Cons.IH by simp
    show ?thesis
      using True un by (simp add: args split: option.splits)
  next
    case False
    with Cons.prems have "\<not> affected ds ws t" by simp
    with False Cons.IH show ?thesis by simp
  qed
qed

lemma value_of_stored:
  "t \<notin> set (map tag_name ds) \<Longrightarrow> value_of st ds t = st t"
  by (induction ds) auto


section \<open>Properties of the action UpdateU\<close>

subsection \<open>What the action does to the box\<close>

lemma UpdateU_tags_distinct:
  "UpdateU_history_tag V mv \<noteq> UpdateU_variables_tag V mv"
  "UpdateU_history_tag V mv \<noteq> TimeStep"
  by (simp_all add: UpdateU_history_tag_def add_tag_prefix_dt_def Let_def)

lemma db_get_Inr:
  "db_get t box = Inr (i, box1) \<Longrightarrow>
     db_value box t = Some i \<and> box1 = box\<lparr>derived := refresh (stored box) (derived box) [t]\<rparr>"
  by (auto simp: db_get_def split: option.splits)

lemma db_mutate_Inr:
  "db_mutate w1 w2 box fn = Inr box' \<Longrightarrow>
    w1 \<notin> set (map tag_name (derived box)) \<and> w2 \<notin> set (map tag_name (derived box)) \<and>
    (\<exists>x1 x2 y1 y2. stored box w1 = Some x1 \<and> stored box w2 = Some x2 \<and> fn x1 x2 = Inr (y1, y2)
      \<and> box' = box\<lparr>stored := (stored box)(w1 \<mapsto> y1, w2 \<mapsto> y2),
                    derived := invalidate (derived box) [w1, w2]\<rparr>)"
  by (auto simp: db_mutate_def split: option.splits sum.splits if_splits)

lemma UpdateU_lambda_Inr:
  "UpdateU_lambda cache vt ht ts x1 x2 = Inr (y1, y2) \<Longrightarrow>
    \<exists>vars history vars' history'. x1 = Vars_item vars \<and> x2 = History_item history
      \<and> update_u (TimeStepperBase cache) vars history ts = Inr (vars', history')
      \<and> y1 = Vars_item vars' \<and> y2 = History_item history'"
  by (auto simp: UpdateU_lambda_def Let_def split: item.splits sum.splits)

text \<open>
  When the action returns, the box gave the time step, held the variables and the history
  as stored items at the two tags, the stepper returned, and the result is the box with
  the two items replaced, with what the read of the time step memoized and without the
  memoized values of the derived tags that the two items affect.
\<close>

lemma UpdateU_apply_Inr:
  fixes cache :: "('vars, 'hist, 'td, 'err) ConstGlobalCache"
  assumes "UpdateU_apply V mv box inboxes cache idx = Inr r"
  shows "\<exists>ts vars history vars' history'.
      db_value box TimeStep = Some (TimeDelta_item ts)
    \<and> UpdateU_variables_tag V mv \<notin> set (map tag_name (derived box))
    \<and> UpdateU_history_tag V mv \<notin> set (map tag_name (derived box))
    \<and> stored box (UpdateU_variables_tag V mv) = Some (Vars_item vars)
    \<and> stored box (UpdateU_history_tag V mv) = Some (History_item history)
    \<and> update_u (TimeStepperBase cache) vars history ts = Inr (vars', history')
    \<and> r = \<lparr>result_box =
             \<lparr>stored = (stored box)(UpdateU_variables_tag V mv \<mapsto> Vars_item vars',
                                    UpdateU_history_tag V mv \<mapsto> History_item history'),
              derived = invalidate (refresh (stored box) (derived box) [TimeStep])
                          [UpdateU_variables_tag V mv, UpdateU_history_tag V mv]\<rparr>,
           result_inboxes = inboxes, result_directive = Continue\<rparr>"
proof -
  from assms have "\<exists>ts box1 box'.
      (db_get TimeStep box :: 'err failure + _) = Inr (TimeDelta_item ts, box1)
    \<and> db_mutate (UpdateU_variables_tag V mv) (UpdateU_history_tag V mv) box1
              (UpdateU_lambda cache (UpdateU_variables_tag V mv)
                 (UpdateU_history_tag V mv) ts) = Inr box'
    \<and> r = \<lparr>result_box = box', result_inboxes = inboxes, result_directive = Continue\<rparr>"
    by (auto simp: UpdateU_apply_def Let_def split: sum.splits item.splits prod.splits)
  then obtain ts box1 box' where
    g: "(db_get TimeStep box :: 'err failure + _) = Inr (TimeDelta_item ts, box1)"
    and m: "db_mutate (UpdateU_variables_tag V mv) (UpdateU_history_tag V mv) box1
              (UpdateU_lambda cache (UpdateU_variables_tag V mv)
                 (UpdateU_history_tag V mv) ts) = Inr box'"
    and r: "r = \<lparr>result_box = box', result_inboxes = inboxes, result_directive = Continue\<rparr>"
    by blast
  from db_get_Inr [OF g] have v: "db_value box TimeStep = Some (TimeDelta_item ts)"
    and b1: "box1 = box\<lparr>derived := refresh (stored box) (derived box) [TimeStep]\<rparr>"
    by simp_all
  from db_mutate_Inr [OF m] UpdateU_lambda_Inr show ?thesis
    using v b1 r by fastforce
qed

text \<open>
  And the action does return on every such box, unless the stepper reports an error.
\<close>

lemma UpdateU_apply_success:
  assumes "db_value box TimeStep = Some (TimeDelta_item ts)"
    and "UpdateU_variables_tag V mv \<notin> set (map tag_name (derived box))"
    and "UpdateU_history_tag V mv \<notin> set (map tag_name (derived box))"
    and "stored box (UpdateU_variables_tag V mv) = Some (Vars_item vars)"
    and "stored box (UpdateU_history_tag V mv) = Some (History_item history)"
    and "update_u (TimeStepperBase cache) vars history ts = Inr (vars', history')"
  shows "UpdateU_apply V mv box inboxes cache idx =
     Inr \<lparr>result_box =
             \<lparr>stored = (stored box)(UpdateU_variables_tag V mv \<mapsto> Vars_item vars',
                                    UpdateU_history_tag V mv \<mapsto> History_item history'),
              derived = invalidate (refresh (stored box) (derived box) [TimeStep])
                          [UpdateU_variables_tag V mv, UpdateU_history_tag V mv]\<rparr>,
          result_inboxes = inboxes, result_directive = Continue\<rparr>"
  using assms
  by (simp add: UpdateU_apply_def db_get_def db_mutate_def UpdateU_lambda_def Let_def)

lemma UpdateU_apply_aborted:
  assumes "db_value box TimeStep = Some (TimeDelta_item ts)"
    and "UpdateU_variables_tag V mv \<notin> set (map tag_name (derived box))"
    and "UpdateU_history_tag V mv \<notin> set (map tag_name (derived box))"
    and "stored box (UpdateU_variables_tag V mv) = Some (Vars_item vars)"
    and "stored box (UpdateU_history_tag V mv) = Some (History_item history)"
    and "update_u (TimeStepperBase cache) vars history ts = Inl e"
  shows "UpdateU_apply V mv box inboxes cache idx = Inl (Aborted e)"
  using assms
  by (simp add: UpdateU_apply_def db_get_def db_mutate_def UpdateU_lambda_def Let_def)

subsection \<open>The example box\<close>

lemma example_tags:
  "UpdateU_variables_tag NoSuchType example_metavariables = Named_tag ''U''"
  "UpdateU_history_tag NoSuchType example_metavariables = example_history_tag"
  by (simp_all add: UpdateU_variables_tag_def UpdateU_history_tag_def example_metavariables_def
      example_history_tag_def add_tag_prefix_dt_def Let_def)

lemma example_second_update:
  "update example_stepper 0 example_history_after (1 / 2) = Inr (1 / 2, example_history_second)"
  by (simp add: example_stepper_def update_def example_history_after_def ordered_by_time_def
      current_time_def discard_old_def euler_combination_def constant_derivative_def
      example_history_second_def Let_def)

lemma example_apply:
  "UpdateU_apply NoSuchType example_metavariables example_box inboxes example_cache idx =
     Inr \<lparr>result_box = example_box_after, result_inboxes = inboxes,
          result_directive = Continue\<rparr>"
proof -
  have "UpdateU_apply NoSuchType example_metavariables example_box inboxes example_cache idx =
     Inr \<lparr>result_box =
             \<lparr>stored = (stored example_box)(
                UpdateU_variables_tag NoSuchType example_metavariables \<mapsto> Vars_item (1 / 2),
                UpdateU_history_tag NoSuchType example_metavariables
                  \<mapsto> History_item example_history_second),
              derived = invalidate (refresh (stored example_box) (derived example_box) [TimeStep])
                          [UpdateU_variables_tag NoSuchType example_metavariables,
                           UpdateU_history_tag NoSuchType example_metavariables]\<rparr>,
          result_inboxes = inboxes, result_directive = Continue\<rparr>"
  proof (rule UpdateU_apply_success)
    show "db_value example_box TimeStep = Some (TimeDelta_item (1 / 2))"
      by (simp add: db_value_def example_box_def example_history_tag_def example_D_def
          example_E_def)
    show "UpdateU_variables_tag NoSuchType example_metavariables
        \<notin> set (map tag_name (derived example_box))"
      by (simp add: example_tags example_box_def example_D_def example_E_def)
    show "UpdateU_history_tag NoSuchType example_metavariables
        \<notin> set (map tag_name (derived example_box))"
      by (simp add: example_tags example_box_def example_D_def example_E_def
          example_history_tag_def)
    show "stored example_box (UpdateU_variables_tag NoSuchType example_metavariables)
        = Some (Vars_item 0)"
      by (simp add: example_tags example_box_def example_history_tag_def)
    show "stored example_box (UpdateU_history_tag NoSuchType example_metavariables)
        = Some (History_item example_history_after)"
      by (simp add: example_tags example_box_def example_history_tag_def)
    show "update_u (TimeStepperBase example_cache) 0 example_history_after (1 / 2)
        = Inr (1 / 2, example_history_second)"
      by (simp add: example_cache_def multistep_TimeStepper_def example_second_update)
  qed
  also have "\<dots> = Inr \<lparr>result_box = example_box_after, result_inboxes = inboxes,
          result_directive = Continue\<rparr>"
    by (simp add: example_tags example_box_def example_box_after_def example_D_def
        example_E_def example_history_tag_def fun_upd_twist)
  finally show ?thesis .
qed

subsection \<open>The frame of the action\<close>

text \<open>
  Claim C2, as stated: for every DataBox, the UpdateU action modifies only the evolved
  variables tag and its history tag, and leaves the value of every other tag in the box
  unchanged. The derived tag \<open>D = 2 U + 1\<close> of the example box is neither of the two tags;
  it reads \<open>1\<close> before the action and \<open>2\<close> after it, the action having moved \<open>U\<close> from \<open>0\<close> to
  \<open>1/2\<close>.
\<close>

theorem UpdateU_frame_counterexample:
  "UpdateU_apply NoSuchType example_metavariables example_box () example_cache (0::nat) =
     Inr \<lparr>result_box = example_box_after, result_inboxes = (),
          result_directive = (Continue :: unit directive)\<rparr>
   \<and> Named_tag ''D'' \<noteq> UpdateU_variables_tag NoSuchType example_metavariables
   \<and> Named_tag ''D'' \<noteq> UpdateU_history_tag NoSuchType example_metavariables
   \<and> db_value example_box (Named_tag ''D'') = Some (Vars_item 1)
   \<and> db_value example_box_after (Named_tag ''D'') = Some (Vars_item 2)"
proof -
  have "db_value example_box (Named_tag ''D'') = Some (Vars_item 1)"
    by (simp add: db_value_def example_box_def example_D_def)
  moreover have "db_value example_box_after (Named_tag ''D'') = Some (Vars_item 2)"
    by (simp add: db_value_def example_box_after_def example_D_def example_E_def
        example_history_tag_def twice_plus_one_def)
  ultimately show ?thesis
    by (simp add: example_apply example_tags example_history_tag_def)
qed

text \<open>
  Claim C2, amended: for every DataBox, the UpdateU action writes only the stored items of
  the evolved variables tag and of its history tag; it adds no tag and removes no tag,
  stored or derived; it leaves the stored item of every other tag (including
  \<open>Tags::TimeStep\<close>, which it only reads) unchanged, and it leaves unchanged the value read
  at every tag that does not depend, directly or through other derived tags, on one of the
  two written tags.
\<close>

theorem UpdateU_frame:
  assumes "UpdateU_apply V mv box inboxes cache idx = Inr r"
  shows "dom (stored (result_box r)) = dom (stored box)
    \<and> map tag_name (derived (result_box r)) = map tag_name (derived box)
    \<and> (\<forall>t. t \<noteq> UpdateU_variables_tag V mv \<and> t \<noteq> UpdateU_history_tag V mv
          \<longrightarrow> stored (result_box r) t = stored box t)
    \<and> stored (result_box r) TimeStep = stored box TimeStep
    \<and> (\<forall>t. \<not> affected (derived box) [UpdateU_variables_tag V mv, UpdateU_history_tag V mv] t
          \<longrightarrow> db_value (result_box r) t = db_value box t)"
proof -
  let ?vt = "UpdateU_variables_tag V mv" and ?ht = "UpdateU_history_tag V mv"
  from UpdateU_apply_Inr [OF assms] obtain ts vars history vars' history' where
    ts: "db_value box TimeStep = Some (TimeDelta_item ts)"
    and nv: "?vt \<notin> set (map tag_name (derived box))"
    and v: "stored box ?vt = Some (Vars_item vars)"
    and h: "stored box ?ht = Some (History_item history)"
    and st: "stored (result_box r) = (stored box)(?vt \<mapsto> Vars_item vars', ?ht \<mapsto> History_item history')"
    and de: "derived (result_box r) = invalidate (refresh (stored box) (derived box) [TimeStep]) [?vt, ?ht]"
    by fastforce
  have d: "dom (stored (result_box r)) = dom (stored box)"
    using v h st by auto
  have n: "map tag_name (derived (result_box r)) = map tag_name (derived box)"
    using de by simp
  have f: "\<forall>t. t \<noteq> ?vt \<and> t \<noteq> ?ht \<longrightarrow> stored (result_box r) t = stored box t"
    using st by simp
  have "?vt \<noteq> TimeStep"
  proof
    assume e: "?vt = TimeStep"
    have "db_value box TimeStep = stored box TimeStep"
      using nv value_of_stored unfolding e db_value_def by blast
    with ts v e show False by simp
  qed
  with f UpdateU_tags_distinct(2) have t: "stored (result_box r) TimeStep = stored box TimeStep"
    by metis
  have u: "\<forall>t. \<not> affected (derived box) [?vt, ?ht] t
          \<longrightarrow> db_value (result_box r) t = db_value box t"
  proof (intro allI impI)
    fix t assume "\<not> affected (derived box) [?vt, ?ht] t"
    then have "\<not> affected (refresh (stored box) (derived box) [TimeStep]) [?vt, ?ht] t"
      by simp
    then have "value_of (stored (result_box r)) (derived (result_box r)) t
        = value_of (stored box) (refresh (stored box) (derived box) [TimeStep]) t"
      unfolding de by (rule value_of_invalidate) (simp add: st)
    then show "db_value (result_box r) t = db_value box t"
      by (simp add: db_value_def)
  qed
  from d n f t u show ?thesis by blast
qed

text \<open>
  On the example box the action runs; the stored and the derived tags are the same
  afterwards, the time step and the item at the unrelated tag \<open>X\<close> are what they were, and
  so is the value of the derived tag \<open>E\<close>, which depends on \<open>X\<close> only.
\<close>

theorem UpdateU_frame_witness:
  "UpdateU_apply NoSuchType example_metavariables example_box () example_cache (0::nat) =
     Inr \<lparr>result_box = example_box_after, result_inboxes = (),
          result_directive = (Continue :: unit directive)\<rparr>
   \<and> dom (stored example_box_after) = dom (stored example_box)
   \<and> map tag_name (derived example_box_after) = map tag_name (derived example_box)
   \<and> stored example_box_after (Named_tag ''X'') = stored example_box (Named_tag ''X'')
   \<and> stored example_box_after TimeStep = stored example_box TimeStep
   \<and> db_value example_box_after (Named_tag ''E'') = db_value example_box (Named_tag ''E'')"
proof -
  have run: "UpdateU_apply NoSuchType example_metavariables example_box () example_cache
      (0::nat) = Inr \<lparr>result_box = example_box_after, result_inboxes = (),
          result_directive = (Continue :: unit directive)\<rparr>"
    by (rule example_apply)
  have x: "Named_tag ''X'' \<noteq> UpdateU_variables_tag NoSuchType example_metavariables
      \<and> Named_tag ''X'' \<noteq> UpdateU_history_tag NoSuchType example_metavariables"
    by (simp add: example_tags example_history_tag_def)
  have e: "\<not> affected (derived example_box)
      [UpdateU_variables_tag NoSuchType example_metavariables,
       UpdateU_history_tag NoSuchType example_metavariables] (Named_tag ''E'')"
    by (simp add: example_tags example_history_tag_def example_box_def example_D_def
        example_E_def)
  from UpdateU_frame [OF run] x e run show ?thesis by simp
qed

subsection \<open>Inboxes and array index\<close>

text \<open>
  Claim C8. The result of the UpdateU action is independent of the inboxes and of the
  element's array index: two invocations with the same box and cache but different
  inboxes or array indices end with equal boxes (or with the same failure); the action
  never consumes or produces inbox entries, never requests suspension, and returns the
  box it was given with the directive to continue.
\<close>

theorem UpdateU_ignores_inboxes_and_index:
  "(case UpdateU_apply V mv box inboxes1 cache index1 of
      Inl e \<Rightarrow> UpdateU_apply V mv box inboxes2 cache index2 = Inl e
    | Inr r \<Rightarrow>
        result_inboxes r = inboxes1 \<and> result_directive r = Continue \<and>
        UpdateU_apply V mv box inboxes2 cache index2 =
          Inr \<lparr>result_box = result_box r, result_inboxes = inboxes2,
               result_directive = Continue\<rparr>)"
  by (simp add: UpdateU_apply_def Let_def split: sum.splits item.splits prod.splits)

text \<open>
  The example box with an empty inbox at element 0, and with two pending entries at
  element 7: the same box results, each inbox comes back as it was.
\<close>

theorem UpdateU_ignores_inboxes_and_index_witness:
  "UpdateU_apply NoSuchType example_metavariables example_box ([]::string list)
      example_cache (0::nat) =
     Inr \<lparr>result_box = example_box_after, result_inboxes = [],
          result_directive = (Continue :: unit directive)\<rparr>
   \<and> UpdateU_apply NoSuchType example_metavariables example_box [''flux'', ''flux'']
      example_cache (7::nat) =
     Inr \<lparr>result_box = example_box_after, result_inboxes = [''flux'', ''flux''],
          result_directive = (Continue :: unit directive)\<rparr>"
  using UpdateU_ignores_inboxes_and_index [of NoSuchType example_metavariables example_box
      "[]::string list" example_cache "0::nat" "[''flux'', ''flux'']" "7::nat"]
  by (simp add: example_apply)

subsection \<open>The default variables tag\<close>

text \<open>
  Claim C9. Instantiating UpdateU with no variables tag (the \<open>NoSuchType\<close> default) behaves
  as instantiating it with the metavariables' \<open>system::variables_tag\<close>: for every box,
  inbox and cache the two produce equal results.
\<close>

theorem UpdateU_default_tag:
  "UpdateU_apply NoSuchType mv box inboxes cache array_index =
   UpdateU_apply (variables_tag (system mv)) mv box inboxes cache array_index"
  by (simp add: UpdateU_apply_def UpdateU_variables_tag_def UpdateU_history_tag_def)

theorem UpdateU_default_tag_witness:
  "UpdateU_apply (Named_tag ''U'') example_metavariables example_box () example_cache (0::nat) =
     Inr \<lparr>result_box = example_box_after, result_inboxes = (),
          result_directive = (Continue :: unit directive)\<rparr>"
proof -
  have b: "Named_tag ''U'' = variables_tag (system example_metavariables)"
    by (simp add: example_metavariables_def)
  show ?thesis
    unfolding b UpdateU_default_tag [symmetric] by (rule example_apply)
qed


section \<open>Properties of the history buffer\<close>

subsection \<open>What a successful update returns\<close>

lemma length_discard_old: "length (discard_old k xs) = min k (length xs)"
  by (simp add: discard_old_def)

lemma update_Inr:
  assumes "update s v h dt = Inr (v', h')"
  shows "dt \<noteq> 0" and "ordered_by_time (samples h)"
    and "\<not> (step_order s \<le> taken h \<and> length (samples h) < step_order s)"
    and "v' = combination s dt v (samples h)"
    and "samples h' = discard_old (step_order s) (samples h @
            [\<lparr>sample_time = current_time h + dt, sample_value = v',
              sample_deriv = derivative s (current_time h + dt) v'\<rparr>])"
    and "taken h' = Suc (taken h)" and "origin h' = origin h"
    and "ordered_by_time (samples h @
            [\<lparr>sample_time = current_time h + dt, sample_value = v',
              sample_deriv = derivative s (current_time h + dt) v'\<rparr>])"
  using assms by (auto simp: update_def Let_def split: if_splits)

text \<open>
  With such a stepper in the cache, the action performs this update on the variables and
  the history of the box, with the time step of the box.
\<close>

lemma UpdateU_apply_multistep:
  assumes "TimeStepperBase cache = multistep_TimeStepper s"
    and "db_value box TimeStep = Some (TimeDelta_item dt)"
    and "UpdateU_variables_tag V mv \<notin> set (map tag_name (derived box))"
    and "UpdateU_history_tag V mv \<notin> set (map tag_name (derived box))"
    and "stored box (UpdateU_variables_tag V mv) = Some (Vars_item v)"
    and "stored box (UpdateU_history_tag V mv) = Some (History_item h)"
    and "update s v h dt = Inr (v', h')"
  shows "UpdateU_apply V mv box inboxes cache idx =
     Inr \<lparr>result_box =
             \<lparr>stored = (stored box)(UpdateU_variables_tag V mv \<mapsto> Vars_item v',
                                    UpdateU_history_tag V mv \<mapsto> History_item h'),
              derived = invalidate (refresh (stored box) (derived box) [TimeStep])
                          [UpdateU_variables_tag V mv, UpdateU_history_tag V mv]\<rparr>,
          result_inboxes = inboxes, result_directive = Continue\<rparr>"
proof (rule UpdateU_apply_success [OF assms(2-6)])
  show "update_u (TimeStepperBase cache) v h dt = Inr (v', h')"
    using assms(1,7) by (simp add: multistep_TimeStepper_def)
qed

subsection \<open>The length of the history\<close>

lemma length_update:
  "update s v h dt = Inr (v', h') \<Longrightarrow>
     length (samples h') = min (step_order s) (Suc (length (samples h)))"
  by (simp add: update_Inr(5) length_discard_old)

text \<open>
  From a history that holds no more than \<open>k\<close> samples, each successful call adds one until
  \<open>k\<close> are held.
\<close>

lemma length_updates:
  "updates s v h dts = Inr (v', h') \<Longrightarrow> length (samples h) \<le> step_order s \<Longrightarrow>
     length (samples h') = min (step_order s) (length (samples h) + length dts)"
proof (induction dts arbitrary: v h)
  case Nil
  then show ?case by simp
next
  case (Cons dt dts)
  from Cons.prems obtain v1 h1 where u: "update s v h dt = Inr (v1, h1)"
    and r: "updates s v1 h1 dts = Inr (v', h')"
    by (auto split: sum.splits)
  have "length (samples h1) \<le> step_order s"
    using length_update [OF u] by simp
  then have "length (samples h') = min (step_order s) (length (samples h1) + length dts)"
    using Cons.IH [OF r] by simp
  also have "\<dots> = min (step_order s) (length (samples h) + length (dt # dts))"
    using length_update [OF u] by simp
  finally show ?case .
qed

lemma example_run:
  "updates example_stepper 0 (empty_history 0) [1, 1 / 2, 2] = Inr (5 / 2, example_run_after)"
  by (simp add: example_stepper_def update_def empty_history_def ordered_by_time_def
      current_time_def discard_old_def euler_combination_def constant_derivative_def
      example_run_after_def Let_def)

text \<open>
  Claim C1. For a \<open>k\<close>-step time stepper, after every sequence of \<open>n\<close> successful update
  calls starting from an empty history, the history length is exactly \<open>min(k, n)\<close>: exactly
  \<open>k\<close> when \<open>n \<ge> k\<close> and exactly \<open>n\<close> when \<open>n < k\<close>.
\<close>

theorem history_length:
  assumes "updates s v (empty_history t0) dts = Inr (v', h')"
  shows "length (samples h') = min (step_order s) (length dts)"
  using length_updates [OF assms] by (simp add: empty_history_def)

text \<open>Three steps of the two-step example stepper leave two samples.\<close>

theorem history_length_witness:
  "updates example_stepper 0 (empty_history 0) [1, 1 / 2, 2] = Inr (5 / 2, example_run_after)
   \<and> length (samples example_run_after) = 2
   \<and> min (step_order example_stepper) (length [1, 1 / 2, 2 :: rat]) = 2"
  using history_length [OF example_run] example_run
  by (simp add: example_stepper_def)

subsection \<open>The order of the entries\<close>

lemma ordered_by_time_snoc:
  "ordered_by_time (xs @ [x]) =
     (ordered_by_time xs \<and> (\<forall>y\<in>set xs. sample_time y \<le> sample_time x))"
  by (auto simp: ordered_by_time_def sorted_append)

lemma ordered_by_time_last:
  "ordered_by_time xs \<Longrightarrow> y \<in> set xs \<Longrightarrow> sample_time y \<le> sample_time (last xs)"
  by (cases xs rule: rev_cases) (auto simp: ordered_by_time_snoc)

lemma ordered_by_time_drop: "ordered_by_time xs \<Longrightarrow> ordered_by_time (drop n xs)"
  by (simp add: ordered_by_time_def drop_map [symmetric] sorted_wrt_drop)

lemma current_time_bound:
  "ordered_by_time (samples h) \<Longrightarrow> y \<in> set (samples h) \<Longrightarrow> sample_time y \<le> current_time h"
  using ordered_by_time_last [of "samples h" y]
  by (cases "samples h") (auto simp: current_time_def)

lemma forward_sample_ordered:
  assumes "ordered_by_time (samples h)" and "0 < dt" and "sample_time new = current_time h + dt"
  shows "ordered_by_time (samples h @ [new])"
proof -
  have "\<forall>y\<in>set (samples h). sample_time y \<le> sample_time new"
  proof
    fix y assume "y \<in> set (samples h)"
    then have "sample_time y \<le> current_time h"
      using current_time_bound [OF assms(1)] by blast
    then show "sample_time y \<le> sample_time new"
      using assms(2,3) by simp
  qed
  with assms(1) show ?thesis
    by (simp add: ordered_by_time_snoc)
qed

lemma update_succeeds:
  assumes "consistent s h" and "0 < dt"
  shows "\<exists>v' h'. update s v h dt = Inr (v', h')"
proof -
  have o: "ordered_by_time (samples h)"
    using assms(1) by (simp add: consistent_def)
  have "ordered_by_time (samples h @
      [\<lparr>sample_time = current_time h + dt, sample_value = combination s dt v (samples h),
        sample_deriv = derivative s (current_time h + dt) (combination s dt v (samples h))\<rparr>])"
    by (rule forward_sample_ordered [OF o assms(2)]) simp
  then show ?thesis
    using assms by (auto simp: update_def consistent_def Let_def)
qed

lemma update_ordered:
  assumes u: "update s v h dt = Inr (v', h')"
  shows "ordered_by_time (samples h')"
  unfolding update_Inr(5) [OF u] discard_old_def
  using update_Inr(8) [OF u] by (rule ordered_by_time_drop)

lemma consistent_empty: "consistent s (empty_history t0)"
  by (simp add: consistent_def empty_history_def ordered_by_time_def)

lemma update_consistent:
  assumes u: "update s v h dt = Inr (v', h')" and c: "consistent s h"
  shows "consistent s h'"
proof -
  have "length (samples h') = min (step_order s) (taken h')"
    using length_update [OF u] update_Inr(6) [OF u] c by (simp add: consistent_def)
  with update_ordered [OF u] show ?thesis
    by (simp add: consistent_def)
qed

text \<open>
  A step backward in time is taken from the empty buffer, and rejected once a sample is
  stored: the new sample would be older than the newest one.
\<close>

lemma backward_step_rejected:
  "update example_stepper 0 (empty_history 0) (- 1) = Inr (0, backward_first)
   \<and> update example_stepper 0 backward_first (- 1) = Inl Out_of_order"
  by (simp add: example_stepper_def update_def empty_history_def ordered_by_time_def
      current_time_def discard_old_def euler_combination_def constant_derivative_def
      backward_first_def Let_def)


text \<open>
  Successful sequences of every length exist: from the empty history every sequence of
  steps forward in time succeeds.
\<close>

lemma updates_succeed:
  assumes "consistent s h" and "\<forall>dt\<in>set dts. 0 < dt"
  shows "\<exists>v' h'. updates s v h dts = Inr (v', h')"
  using assms
proof (induction dts arbitrary: v h)
  case Nil
  then show ?case by simp
next
  case (Cons dt dts)
  then have dt: "0 < dt" by simp
  then obtain v1 h1 where u: "update s v h dt = Inr (v1, h1)"
    using update_succeeds [OF Cons.prems(1), of dt v] by auto
  have "consistent s h1"
    using update_consistent [OF u Cons.prems(1)] .
  then obtain v' h' where "updates s v1 h1 dts = Inr (v', h')"
    using Cons.IH [of h1 v1] Cons.prems(2) by auto
  with u show ?case by simp
qed

lemma updates_from_empty_succeed:
  "\<forall>dt\<in>set dts. 0 < dt \<Longrightarrow> \<exists>v' h'. updates s v (empty_history t0) dts = Inr (v', h')"
  using updates_succeed [OF consistent_empty] .



end
